theory Spec2Isabelle
  imports Complex_Main "HOL-Library.Word"
begin

text \<open>
  A model of the ingestion and retrieval core of \<^verbatim>\<open>document_processor.py\<close>
  (class \<^verbatim>\<open>DocumentProcessor\<close>): the chunker, the relational store with its
  duplicate check, the two-path search, the statistics and the reset.

  Conventions.
  \<^item> A Python string is a list of characters. Isabelle's \<open>char\<close> has 256 values; they
    stand for the code points below 256, so \<open>isspace\<close>, \<open>py_lower\<close> and the SQL
    functions are the Python and SQLite ones on that range.
  \<^item> Python integers are \<open>int\<close>; row ids and chunk indices, which the code only
    counts upwards, are \<open>nat\<close>.
  \<^item> An exception is a value of \<open>py_exc\<close>; a function that can raise returns
    \<open>py_exc + 'a\<close>. A \<^verbatim>\<open>try/except Exception\<close> is a case distinction on that
    result.
  \<^item> A loop that may not terminate is a \<open>partial_function\<close> in the option monad:
    \<open>None\<close> means that the call does not return.
  \<^item> The libraries behind the class (file system, hashlib, PyPDF2, python-docx, chromadb)
    are parameters, collected in the record \<open>env\<close>. SQLite is modelled by the documented
    meaning of the statements the code sends: tables are lists of rows in insertion order,
    a connection holds a committed and a pending store. Failures of the database engine
    itself (I/O errors, a bound integer outside 64 bits, a pattern beyond the engine's
    length limit) are outside the model.
\<close>

section \<open>Python string primitives used by the chunker\<close>

text \<open>
  \<open>isspace\<close> is \<^verbatim>\<open>str.isspace\<close> on one character: tab to carriage return,
  the four separators 28 to 31, space, NEL (133) and the no-break space (160).
  \<open>strip\<close> is \<^verbatim>\<open>str.strip()\<close>. \<open>py_slice xs i j\<close> is \<^verbatim>\<open>xs[i:j]\<close>
  and \<open>rfind s c i j\<close> is \<^verbatim>\<open>s.rfind(c, i, j)\<close> for a one-character \<open>c\<close>;
  both count a negative index from the end and clamp it, as Python does.
\<close>

type_synonym pystr = string

definition isspace :: "char \<Rightarrow> bool" where
  "isspace c = (let n = (of_char c :: nat) in
     (9 \<le> n \<and> n \<le> 13) \<or> (28 \<le> n \<and> n \<le> 32) \<or> n = 133 \<or> n = 160)"

definition strip :: "pystr \<Rightarrow> pystr" where
  "strip s = rev (dropWhile isspace (rev (dropWhile isspace s)))"

definition slice_index :: "nat \<Rightarrow> int \<Rightarrow> nat" where
  "slice_index n i = (if i < 0 then nat (int n + i) else min n (nat i))"

definition py_slice :: "'a list \<Rightarrow> int \<Rightarrow> int \<Rightarrow> 'a list" where
  "py_slice xs i j =
     (let a = slice_index (length xs) i; b = slice_index (length xs) j
      in take (b - a) (drop a xs))"

fun last_index :: "'a \<Rightarrow> 'a list \<Rightarrow> nat option" where
  "last_index c [] = None"
| "last_index c (x # xs) =
     (case last_index c xs of
        Some k \<Rightarrow> Some (Suc k)
      | None \<Rightarrow> if x = c then Some 0 else None)"

definition rfind :: "pystr \<Rightarrow> char \<Rightarrow> int \<Rightarrow> int \<Rightarrow> int" where
  "rfind s c i j =
     (let a = slice_index (length s) i; b = slice_index (length s) j
      in case last_index c (take (b - a) (drop a s)) of
           None \<Rightarrow> - 1
         | Some k \<Rightarrow> int (a + k))"

text \<open>
  \<^verbatim>\<open>chunk_text\<close> (lines 155 to 194). \<open>chunk_loop\<close> is the \<^verbatim>\<open>while\<close>
  loop of lines 173 to 192 with its two variables \<open>start\<close> and \<open>chunks\<close>;
  \<open>chunk_text\<close> adds the early return of lines 167 and 168.
\<close>

partial_function (option) chunk_loop ::
  "pystr \<Rightarrow> int \<Rightarrow> int \<Rightarrow> int \<Rightarrow> pystr list \<Rightarrow> pystr list option" where
  "chunk_loop text chunk_size overlap start chunks =
     (if start < int (length text) then
        let end0 = start + chunk_size;
            end1 = (if end0 < int (length text) then
                      let last_sentence =
                            max (max (rfind text CHR ''.'' start end0)
                                     (rfind text CHR ''!'' start end0))
                                (rfind text CHR ''?'' start end0)
                      in if last_sentence > start then last_sentence + 1 else end0
                    else end0);
            chunk = strip (py_slice text start end1);
            chunks' = (if chunk \<noteq> [] then chunks @ [chunk] else chunks)
        in chunk_loop text chunk_size overlap (end1 - overlap) chunks'
      else Some chunks)"

declare chunk_loop.simps [code]

definition chunk_text :: "pystr \<Rightarrow> int \<Rightarrow> int \<Rightarrow> pystr list option" where
  "chunk_text text chunk_size overlap =
     (if int (length text) \<le> chunk_size then Some [text]
      else chunk_loop text chunk_size overlap 0 [])"

section \<open>More string primitives: lower, split, join, decimal rendering\<close>

text \<open>
  \<open>py_lower\<close> is \<^verbatim>\<open>str.lower()\<close>: below 256 it maps A to Z and the
  letters 192 to 222 (except the multiplication sign 215) to the character 32 higher.
  \<open>py_split\<close> is \<^verbatim>\<open>str.split()\<close> without arguments, \<open>py_join sep\<close> is
  \<^verbatim>\<open>sep.join\<close>, and \<open>str_of_nat\<close> renders a row id inside an f-string.
\<close>

definition py_lower_char :: "char \<Rightarrow> char" where
  "py_lower_char c = (let n = (of_char c :: nat) in
     if (65 \<le> n \<and> n \<le> 90) \<or> (192 \<le> n \<and> n \<le> 222 \<and> n \<noteq> 215)
     then char_of (n + 32) else c)"

definition py_lower :: "pystr \<Rightarrow> pystr" where
  "py_lower s = map py_lower_char s"

fun split_aux :: "pystr \<Rightarrow> pystr \<Rightarrow> pystr list" where
  "split_aux cur [] = (if cur = [] then [] else [cur])"
| "split_aux cur (c # cs) =
     (if isspace c then (if cur = [] then split_aux [] cs else cur # split_aux [] cs)
      else split_aux (cur @ [c]) cs)"

definition py_split :: "pystr \<Rightarrow> pystr list" where
  "py_split s = split_aux [] s"

fun py_join :: "pystr \<Rightarrow> pystr list \<Rightarrow> pystr" where
  "py_join sep [] = []"
| "py_join sep [x] = x"
| "py_join sep (x # y # ys) = x @ sep @ py_join sep (y # ys)"

definition digit_char :: "nat \<Rightarrow> char" where
  "digit_char d = char_of (48 + d)"

fun str_of_nat :: "nat \<Rightarrow> pystr" where
  "str_of_nat n = (if n < 10 then [digit_char n]
                   else str_of_nat (n div 10) @ [digit_char (n mod 10)])"

declare str_of_nat.simps [simp del]

section \<open>Dynamically typed values and exceptions\<close>

text \<open>
  The answer of the semantic index is an untyped dictionary, and the code indexes into it
  without checking its shape. \<open>pyval\<close> covers the shapes such an answer can have;
  the operations below raise where Python raises. Floating-point numbers are rationals
  here: the only arithmetic on them is \<^verbatim>\<open>1 - distance\<close>, and \<open>0.5\<close> is exact.
\<close>

datatype py_exc =
    KeyError | IndexError | TypeError | AttributeError | ImportError
  | UnicodeDecodeError | IntegrityError | LibraryError

datatype pyval =
    PNone
  | PBool bool
  | PInt int
  | PFloat rat
  | PStr pystr
  | PList "pyval list"
  | PDict "(pystr \<times> pyval) list"

type_synonym pydict = "(pystr \<times> pyval) list"

fun truthy :: "pyval \<Rightarrow> bool" where
  "truthy PNone = False"
| "truthy (PBool b) = b"
| "truthy (PInt i) = (i \<noteq> 0)"
| "truthy (PFloat x) = (x \<noteq> 0)"
| "truthy (PStr s) = (s \<noteq> [])"
| "truthy (PList xs) = (xs \<noteq> [])"
| "truthy (PDict d) = (d \<noteq> [])"

definition dict_getitem :: "pydict \<Rightarrow> pystr \<Rightarrow> py_exc + pyval" where
  "dict_getitem d k = (case map_of d k of None \<Rightarrow> Inl KeyError | Some v \<Rightarrow> Inr v)"

fun getitem_index :: "pyval \<Rightarrow> nat \<Rightarrow> py_exc + pyval" where
  "getitem_index (PList xs) i = (if i < length xs then Inr (xs ! i) else Inl IndexError)"
| "getitem_index (PStr s) i = (if i < length s then Inr (PStr [s ! i]) else Inl IndexError)"
| "getitem_index (PDict d) i = Inl KeyError"
| "getitem_index PNone i = Inl TypeError"
| "getitem_index (PBool b) i = Inl TypeError"
| "getitem_index (PInt n) i = Inl TypeError"
| "getitem_index (PFloat x) i = Inl TypeError"

fun iter_items :: "pyval \<Rightarrow> py_exc + pyval list" where
  "iter_items (PList xs) = Inr xs"
| "iter_items (PStr s) = Inr (map (\<lambda>c. PStr [c]) s)"
| "iter_items (PDict d) = Inr (map PStr (remdups (map fst d)))"
| "iter_items PNone = Inl TypeError"
| "iter_items (PBool b) = Inl TypeError"
| "iter_items (PInt n) = Inl TypeError"
| "iter_items (PFloat x) = Inl TypeError"

fun dict_get :: "pyval \<Rightarrow> pystr \<Rightarrow> pyval \<Rightarrow> py_exc + pyval" where
  "dict_get (PDict d) k dflt = Inr (case map_of d k of None \<Rightarrow> dflt | Some v \<Rightarrow> v)"
| "dict_get PNone k dflt = Inl AttributeError"
| "dict_get (PBool b) k dflt = Inl AttributeError"
| "dict_get (PInt n) k dflt = Inl AttributeError"
| "dict_get (PFloat x) k dflt = Inl AttributeError"
| "dict_get (PStr s) k dflt = Inl AttributeError"
| "dict_get (PList xs) k dflt = Inl AttributeError"

fun one_minus :: "pyval \<Rightarrow> py_exc + pyval" where
  "one_minus (PInt n) = Inr (PInt (1 - n))"
| "one_minus (PFloat x) = Inr (PFloat (1 - x))"
| "one_minus (PBool b) = Inr (PInt (1 - (if b then 1 else 0)))"
| "one_minus PNone = Inl TypeError"
| "one_minus (PStr s) = Inl TypeError"
| "one_minus (PList xs) = Inl TypeError"
| "one_minus (PDict d) = Inl TypeError"

section \<open>The relational store (documents.db)\<close>

text \<open>
  The two tables of \<^verbatim>\<open>setup_database\<close> (lines 48 to 80). The column
  \<^verbatim>\<open>processed_date\<close> is left out: it is filled by the database clock and no
  statement of the class reads it. Both keys are \<^verbatim>\<open>AUTOINCREMENT\<close>: the next id
  is one more than the largest id ever used in the table, which the store keeps in
  \<open>documents_seq\<close> and \<open>chunks_seq\<close>; deleting rows does not lower it.
  \<open>insert_document\<close> enforces the \<^verbatim>\<open>UNIQUE\<close> constraint on \<open>file_hash\<close>.

  A connection (module sqlite3 with its default transaction handling) starts from the
  committed store; statements change the pending store only; \<open>commit\<close> publishes it;
  closing without commit drops the pending changes.
\<close>

record document_row =
  doc_id :: nat
  filename :: pystr
  file_hash :: pystr
  file_type :: pystr
  chunk_count :: nat

record chunk_row =
  chunk_id :: nat
  document_id :: nat
  chunk_index :: nat
  content :: pystr

record store =
  documents :: "document_row list"
  chunks :: "chunk_row list"
  documents_seq :: nat
  chunks_seq :: nat

definition setup_database :: store where
  "setup_database = \<lparr>documents = [], chunks = [], documents_seq = 0, chunks_seq = 0\<rparr>"

record db_conn =
  committed :: store
  pending :: store

definition connect :: "store \<Rightarrow> db_conn" where
  "connect s = \<lparr>committed = s, pending = s\<rparr>"

definition execute :: "(store \<Rightarrow> store) \<Rightarrow> db_conn \<Rightarrow> db_conn" where
  "execute stmt conn = conn\<lparr>pending := stmt (pending conn)\<rparr>"

definition commit :: "db_conn \<Rightarrow> db_conn" where
  "commit conn = conn\<lparr>committed := pending conn\<rparr>"

definition close :: "db_conn \<Rightarrow> store" where
  "close conn = committed conn"

definition select_id_by_hash :: "store \<Rightarrow> pystr \<Rightarrow> nat option" where
  "select_id_by_hash s h =
     (case filter (\<lambda>d. file_hash d = h) (documents s) of
        [] \<Rightarrow> None
      | d # _ \<Rightarrow> Some (doc_id d))"

definition insert_document ::
  "pystr \<Rightarrow> pystr \<Rightarrow> pystr \<Rightarrow> nat \<Rightarrow> store \<Rightarrow> py_exc + store" where
  "insert_document name h ftype n s =
     (if h \<in> set (map file_hash (documents s)) then Inl IntegrityError
      else Inr (s\<lparr>documents := documents s @
                      [\<lparr>doc_id = Suc (documents_seq s), filename = name, file_hash = h,
                        file_type = ftype, chunk_count = n\<rparr>],
                   documents_seq := Suc (documents_seq s)\<rparr>))"

definition insert_chunk :: "nat \<Rightarrow> nat \<Rightarrow> pystr \<Rightarrow> store \<Rightarrow> store" where
  "insert_chunk did i txt s =
     s\<lparr>chunks := chunks s @
          [\<lparr>chunk_id = Suc (chunks_seq s), document_id = did, chunk_index = i, content = txt\<rparr>],
       chunks_seq := Suc (chunks_seq s)\<rparr>"

definition delete_chunks :: "store \<Rightarrow> store" where
  "delete_chunks s = s\<lparr>chunks := []\<rparr>"

definition delete_documents :: "store \<Rightarrow> store" where
  "delete_documents s = s\<lparr>documents := []\<rparr>"

section \<open>External collaborators: file system, format libraries, semantic index\<close>

text \<open>
  \<open>read_text\<close> takes the encoding and the path. \<open>pdf_pages\<close> and
  \<open>docx_paragraphs\<close> are \<open>None\<close> when the library is not installed. The state
  of the semantic index has the abstract type \<open>'c\<close>; an operation that changes it
  returns the new state together with the exception it raised, if any. A progress
  callback maps the message to the exception it raises, \<open>None\<close> when it returns.
  In a processor, \<open>collection = None\<close> stands for \<^verbatim>\<open>self.chroma_client is None\<close>
  (lines 82 to 102).
\<close>

type_synonym byte = "8 word"

type_synonym callback = "pystr \<Rightarrow> py_exc option"

record 'c env =
  path_exists :: "pystr \<Rightarrow> bool"
  read_binary :: "pystr \<Rightarrow> py_exc + byte list"
  read_text :: "pystr \<Rightarrow> pystr \<Rightarrow> py_exc + pystr"
  md5_hexdigest :: "byte list \<Rightarrow> pystr"
  basename :: "pystr \<Rightarrow> pystr"
  suffix :: "pystr \<Rightarrow> pystr"
  pdf_pages :: "(pystr \<Rightarrow> py_exc + pystr list) option"
  docx_paragraphs :: "(pystr \<Rightarrow> py_exc + pystr list) option"
  collection_add :: "'c \<Rightarrow> pystr list \<Rightarrow> pydict list \<Rightarrow> pystr list \<Rightarrow> 'c \<times> py_exc option"
  collection_query :: "'c \<Rightarrow> pystr \<Rightarrow> int \<Rightarrow> py_exc + pydict"
  delete_collection :: "'c \<Rightarrow> 'c \<times> py_exc option"
  get_or_create_collection :: "'c \<Rightarrow> 'c \<times> py_exc option"

record 'c processor =
  db :: store
  collection :: "'c option"

section \<open>Fingerprint and text extraction\<close>

text \<open>
  \<^verbatim>\<open>calculate_file_hash\<close> (lines 104 to 110) feeds the file to the digest in
  blocks of 4096 bytes; the digest state is the sequence of bytes fed so far. The three
  extractors are lines 112 to 153.
\<close>

function read_blocks :: "nat \<Rightarrow> byte list \<Rightarrow> byte list list" where
  "read_blocks n bs = (if n = 0 \<or> bs = [] then [] else take n bs # read_blocks n (drop n bs))"
  by pat_completeness auto
termination
  by (relation "measure (\<lambda>(n, bs). length bs)") auto

declare read_blocks.simps [simp del]

definition calculate_file_hash :: "'c env \<Rightarrow> pystr \<Rightarrow> py_exc + pystr" where
  "calculate_file_hash env file_path =
     (case read_binary env file_path of
        Inl e \<Rightarrow> Inl e
      | Inr data \<Rightarrow>
          Inr (md5_hexdigest env (foldl (\<lambda>fed chunk. fed @ chunk) [] (read_blocks 4096 data))))"

definition newline :: pystr where
  "newline = [CHR 0x0A]"

definition extract_text_from_pdf :: "'c env \<Rightarrow> pystr \<Rightarrow> py_exc + pystr" where
  "extract_text_from_pdf env file_path =
     (case pdf_pages env of
        None \<Rightarrow> Inl ImportError
      | Some reader \<Rightarrow>
          (case reader file_path of
             Inl e \<Rightarrow> Inl e
           | Inr pages \<Rightarrow> Inr (strip (foldl (\<lambda>txt page. txt @ page @ newline) [] pages))))"

definition extract_text_from_docx :: "'c env \<Rightarrow> pystr \<Rightarrow> py_exc + pystr" where
  "extract_text_from_docx env file_path =
     (case docx_paragraphs env of
        None \<Rightarrow> Inl ImportError
      | Some reader \<Rightarrow>
          (case reader file_path of
             Inl e \<Rightarrow> Inl e
           | Inr paragraphs \<Rightarrow>
               Inr (strip (foldl (\<lambda>txt paragraph. txt @ paragraph @ newline) [] paragraphs))))"

definition extract_text_from_txt :: "'c env \<Rightarrow> pystr \<Rightarrow> py_exc + pystr" where
  "extract_text_from_txt env file_path =
     (case read_text env ''utf-8'' file_path of
        Inr s \<Rightarrow> Inr (strip s)
      | Inl e \<Rightarrow>
          if e = UnicodeDecodeError then
            (case read_text env ''latin-1'' file_path of
               Inr s \<Rightarrow> Inr (strip s)
             | Inl e' \<Rightarrow> Inl e')
          else Inl e)"

section \<open>Ingestion\<close>

text \<open>
  \<^verbatim>\<open>process_document\<close> (lines 196 to 302). Every \<open>Some (False, self)\<close> after
  the existence test is either a \<^verbatim>\<open>return False\<close> of the body or the handler of
  line 300. \<open>store_document\<close> is lines 256 to 298: the inserts, the commit, the third
  callback and the best-effort update of the index.
\<close>

definition invoke :: "callback option \<Rightarrow> pystr \<Rightarrow> py_exc option" where
  "invoke progress_callback msg =
     (case progress_callback of None \<Rightarrow> None | Some f \<Rightarrow> f msg)"

fun insert_chunks :: "nat \<Rightarrow> nat \<Rightarrow> pystr list \<Rightarrow> db_conn \<Rightarrow> db_conn" where
  "insert_chunks did i [] conn = conn"
| "insert_chunks did i (c # cs) conn =
     insert_chunks did (Suc i) cs (execute (insert_chunk did i c) conn)"

definition chunk_ids :: "nat \<Rightarrow> nat \<Rightarrow> pystr list" where
  "chunk_ids did n = map (\<lambda>i. str_of_nat did @ ''_'' @ str_of_nat i) [0..<n]"

definition metadatas :: "nat \<Rightarrow> pystr \<Rightarrow> nat \<Rightarrow> pydict list" where
  "metadatas did name n =
     map (\<lambda>i. [(''document_id'', PInt (int did)), (''filename'', PStr name),
               (''chunk_index'', PInt (int i))]) [0..<n]"

definition add_embeddings :: "'c env \<Rightarrow> 'c processor \<Rightarrow> nat \<Rightarrow> pystr \<Rightarrow> pystr list \<Rightarrow> 'c processor" where
  "add_embeddings env self did name chs =
     (case collection self of
        None \<Rightarrow> self
      | Some coll \<Rightarrow>
          self\<lparr>collection :=
                 Some (fst (collection_add env coll chs (metadatas did name (length chs))
                              (chunk_ids did (length chs))))\<rparr>)"

definition store_document ::
  "'c env \<Rightarrow> 'c processor \<Rightarrow> db_conn \<Rightarrow> callback option \<Rightarrow> pystr \<Rightarrow> pystr \<Rightarrow> pystr \<Rightarrow>
   pystr list \<Rightarrow> bool \<times> 'c processor" where
  "store_document env self conn progress_callback name h file_ext chs =
     (case insert_document name h file_ext (length chs) (pending conn) of
        Inl e \<Rightarrow> (False, self)
      | Inr s1 \<Rightarrow>
          let conn1 = conn\<lparr>pending := s1\<rparr>;
              did = documents_seq s1;
              conn2 = insert_chunks did 0 chs conn1;
              conn3 = commit conn2;
              self1 = self\<lparr>db := committed conn3\<rparr>
          in (case invoke progress_callback ''Criando embeddings para busca...'' of
                Some e \<Rightarrow> (False, self1)
              | None \<Rightarrow> (True, add_embeddings env self1 did name chs)))"

definition process_document ::
  "'c env \<Rightarrow> 'c processor \<Rightarrow> pystr \<Rightarrow> callback option \<Rightarrow> (bool \<times> 'c processor) option" where
  "process_document env self file_path progress_callback =
     (if \<not> path_exists env file_path then Some (False, self)
      else
       (case calculate_file_hash env file_path of
          Inl e \<Rightarrow> Some (False, self)
        | Inr h \<Rightarrow>
           let name = basename env file_path;
               file_ext = py_lower (suffix env file_path);
               conn = connect (db self)
           in (case select_id_by_hash (pending conn) h of
                 Some existing \<Rightarrow> Some (True, self)
               | None \<Rightarrow>
                  (case invoke progress_callback ''Extraindo texto do documento...'' of
                     Some e \<Rightarrow> Some (False, self)
                   | None \<Rightarrow>
                      (case (if file_ext = ''.pdf'' then Some (extract_text_from_pdf env file_path)
                             else if file_ext = ''.docx'' then Some (extract_text_from_docx env file_path)
                             else if file_ext = ''.txt'' then Some (extract_text_from_txt env file_path)
                             else None) of
                         None \<Rightarrow> Some (False, self)
                       | Some (Inl e) \<Rightarrow> Some (False, self)
                       | Some (Inr txt) \<Rightarrow>
                          if strip txt = [] then Some (False, self)
                          else
                           (case invoke progress_callback ''Dividindo texto em chunks...'' of
                              Some e \<Rightarrow> Some (False, self)
                            | None \<Rightarrow>
                               (case chunk_text txt 1000 200 of
                                  None \<Rightarrow> None
                                | Some chs \<Rightarrow>
                                    Some (store_document env self conn progress_callback
                                            name h file_ext chs))))))))"

section \<open>Retrieval\<close>

text \<open>
  \<^verbatim>\<open>search_knowledge\<close> (lines 304 to 368). \<open>semantic_search\<close> is the body of
  the \<^verbatim>\<open>try\<close> block: it returns the result list as it stands when the block is
  left, and the exception if it was left by one. \<open>like pattern s\<close> is SQLite's
  \<^verbatim>\<open>s LIKE pattern\<close>: \<open>%\<close> matches any run of characters, \<open>_\<close> any single
  character, letters A to Z match without regard to case. \<open>sql_lower\<close> is SQLite's
  \<^verbatim>\<open>LOWER\<close>, which changes A to Z only. A negative \<^verbatim>\<open>LIMIT\<close> means no
  limit.
\<close>

record search_result =
  r_content :: pyval
  r_filename :: pyval
  r_chunk_index :: pyval
  relevance_score :: pyval

definition semantic_entry :: "pydict \<Rightarrow> nat \<Rightarrow> pyval \<Rightarrow> py_exc + search_result" where
  "semantic_entry search_results i doc =
     (case dict_getitem search_results ''metadatas'' of Inl e \<Rightarrow> Inl e | Inr ms \<Rightarrow>
      case getitem_index ms 0 of Inl e \<Rightarrow> Inl e | Inr ms0 \<Rightarrow>
      case getitem_index ms0 i of Inl e \<Rightarrow> Inl e | Inr metadata \<Rightarrow>
      case (if map_of search_results ''distances'' \<noteq> None then
              (case dict_getitem search_results ''distances'' of Inl e \<Rightarrow> Inl e | Inr ds \<Rightarrow>
               case getitem_index ds 0 of Inl e \<Rightarrow> Inl e | Inr ds0 \<Rightarrow> getitem_index ds0 i)
            else Inr (PInt 0)) of Inl e \<Rightarrow> Inl e | Inr distance \<Rightarrow>
      case dict_get metadata ''filename'' (PStr ''Unknown'') of Inl e \<Rightarrow> Inl e | Inr fname \<Rightarrow>
      case dict_get metadata ''chunk_index'' (PInt 0) of Inl e \<Rightarrow> Inl e | Inr cidx \<Rightarrow>
      case one_minus distance of Inl e \<Rightarrow> Inl e | Inr score \<Rightarrow>
        Inr \<lparr>r_content = doc, r_filename = fname, r_chunk_index = cidx,
             relevance_score = score\<rparr>)"

fun semantic_loop ::
  "pydict \<Rightarrow> nat \<Rightarrow> pyval list \<Rightarrow> search_result list \<Rightarrow> search_result list \<times> py_exc option" where
  "semantic_loop search_results i [] results = (results, None)"
| "semantic_loop search_results i (doc # docs) results =
     (case semantic_entry search_results i doc of
        Inl e \<Rightarrow> (results, Some e)
      | Inr r \<Rightarrow> semantic_loop search_results (Suc i) docs (results @ [r]))"

definition semantic_search ::
  "'c env \<Rightarrow> 'c \<Rightarrow> pystr \<Rightarrow> int \<Rightarrow> search_result list \<Rightarrow> search_result list \<times> py_exc option" where
  "semantic_search env coll query max_results results =
     (case collection_query env coll query max_results of
        Inl e \<Rightarrow> (results, Some e)
      | Inr search_results \<Rightarrow>
         (case dict_getitem search_results ''documents'' of
            Inl e \<Rightarrow> (results, Some e)
          | Inr docs \<Rightarrow>
             if \<not> truthy docs then (results, None)
             else
              (case getitem_index docs 0 of
                 Inl e \<Rightarrow> (results, Some e)
               | Inr docs0 \<Rightarrow>
                  if \<not> truthy docs0 then (results, None)
                  else
                   (case iter_items docs0 of
                      Inl e \<Rightarrow> (results, Some e)
                    | Inr items \<Rightarrow> semantic_loop search_results 0 items results))))"

definition sql_lower_char :: "char \<Rightarrow> char" where
  "sql_lower_char c = (let n = (of_char c :: nat) in
     if 65 \<le> n \<and> n \<le> 90 then char_of (n + 32) else c)"

definition sql_lower :: "pystr \<Rightarrow> pystr" where
  "sql_lower s = map sql_lower_char s"

fun like :: "pystr \<Rightarrow> pystr \<Rightarrow> bool" where
  "like [] [] = True"
| "like [] (c # s) = False"
| "like (p # ps) [] = (p = CHR ''%'' \<and> like ps [])"
| "like (p # ps) (c # s) =
     (if p = CHR ''%'' then like ps (c # s) \<or> like (p # ps) s
      else (p = CHR ''_'' \<or> sql_lower_char p = sql_lower_char c) \<and> like ps s)"

definition sql_limit :: "int \<Rightarrow> 'a list \<Rightarrow> 'a list" where
  "sql_limit n rows = (if n < 0 then rows else take (nat n) rows)"

definition join_chunks_documents :: "store \<Rightarrow> (chunk_row \<times> document_row) list" where
  "join_chunks_documents s =
     concat (map (\<lambda>c. map (Pair c) (filter (\<lambda>d. document_id c = doc_id d) (documents s)))
                 (chunks s))"

definition select_chunks :: "store \<Rightarrow> pystr \<Rightarrow> int \<Rightarrow> (pystr \<times> pystr \<times> nat) list" where
  "select_chunks s pattern max_results =
     sql_limit max_results
       (map (\<lambda>(c, d). (content c, filename d, chunk_index c))
          (sort_key (\<lambda>(c, d). chunk_id c)
             (filter (\<lambda>(c, d). like pattern (sql_lower (content c)))
                (join_chunks_documents s))))"

definition keyword_result :: "pystr \<times> pystr \<times> nat \<Rightarrow> search_result" where
  "keyword_result row =
     \<lparr>r_content = PStr (fst row), r_filename = PStr (fst (snd row)),
      r_chunk_index = PInt (int (snd (snd row))), relevance_score = PFloat (1 / 2)\<rparr>"

definition keyword_search :: "store \<Rightarrow> pystr \<Rightarrow> int \<Rightarrow> search_result list \<Rightarrow> search_result list" where
  "keyword_search s query max_results results =
     (let query_words = py_split (py_lower query);
          search_pattern = ''%'' @ py_join ''%'' query_words @ ''%''
      in results @ map keyword_result (select_chunks s search_pattern max_results))"

definition search_knowledge ::
  "'c env \<Rightarrow> 'c processor \<Rightarrow> pystr \<Rightarrow> int \<Rightarrow> py_exc + search_result list" where
  "search_knowledge env self query max_results =
     (case collection self of
        None \<Rightarrow> Inr (keyword_search (db self) query max_results [])
      | Some coll \<Rightarrow>
         (case semantic_search env coll query max_results [] of
            (results, None) \<Rightarrow> Inr results
          | (results, Some e) \<Rightarrow> Inr (keyword_search (db self) query max_results results)))"

section \<open>Statistics and reset\<close>

text \<open>
  \<^verbatim>\<open>get_document_stats\<close> (lines 370 to 390) and \<^verbatim>\<open>clear_knowledge_base\<close>
  (lines 392 to 413). The reset sends the statements of \<open>clear_statements\<close> over one
  connection, then rebuilds the collection of the index if there is one.
\<close>

record stats =
  total_documents :: nat
  total_chunks :: nat
  file_types :: "pystr \<Rightarrow> nat option"

definition get_document_stats :: "'c processor \<Rightarrow> stats" where
  "get_document_stats self =
     \<lparr>total_documents = length (documents (db self)),
      total_chunks = length (chunks (db self)),
      file_types = (\<lambda>t. let n = length (filter (\<lambda>d. file_type d = t) (documents (db self)))
                         in if n = 0 then None else Some n)\<rparr>"

definition clear_statements :: "(db_conn \<Rightarrow> db_conn) list" where
  "clear_statements = [execute delete_chunks, execute delete_documents, commit]"

definition run_statements :: "(db_conn \<Rightarrow> db_conn) list \<Rightarrow> db_conn \<Rightarrow> db_conn" where
  "run_statements stmts conn = fold (\<lambda>stmt c. stmt c) stmts conn"

definition reset_collection :: "'c env \<Rightarrow> 'c \<Rightarrow> 'c" where
  "reset_collection env coll =
     (case delete_collection env coll of
        (coll1, Some e) \<Rightarrow> coll1
      | (coll1, None) \<Rightarrow> fst (get_or_create_collection env coll1))"

definition clear_knowledge_base :: "'c env \<Rightarrow> 'c processor \<Rightarrow> 'c processor" where
  "clear_knowledge_base env self =
     (let self1 = self\<lparr>db := close (run_statements clear_statements (connect (db self)))\<rparr>
      in case collection self1 of
           None \<Rightarrow> self1
         | Some coll \<Rightarrow> self1\<lparr>collection := Some (reset_collection env coll)\<rparr>)"

section \<open>Predicates used to state the results\<close>

text \<open>
  \<open>in_sequence ws s\<close>: the tokens \<open>ws\<close> occur in \<open>s\<close> one after the other,
  in order and without overlap. \<open>store_ok\<close> collects what holds of every store the
  class produces: ids and fingerprints are unique and bounded by the sequences, chunk
  rows are in ascending id order, every chunk belongs to a document, and the chunk
  indices of a document are \<open>0..chunk_count-1\<close>. \<open>ingested s name h ftype chs\<close> is
  the store after one document with chunks \<open>chs\<close> has been added to \<open>s\<close>.
\<close>

definition window_chunk :: "pystr \<Rightarrow> pystr \<Rightarrow> bool" where
  "window_chunk t c =
     (c \<noteq> [] \<and> \<not> isspace (hd c) \<and> \<not> isspace (last c) \<and>
      (\<exists>i j. c = strip (py_slice t i j)))"



definition store_ok :: "store \<Rightarrow> bool" where
  "store_ok s =
     (distinct (map doc_id (documents s)) \<and>
      distinct (map file_hash (documents s)) \<and>
      (\<forall>d\<in>set (documents s). doc_id d \<le> documents_seq s) \<and>
      sorted_wrt (<) (map chunk_id (chunks s)) \<and>
      (\<forall>c\<in>set (chunks s). chunk_id c \<le> chunks_seq s) \<and>
      (\<forall>c\<in>set (chunks s). document_id c \<in> doc_id ` set (documents s)) \<and>
      (\<forall>d\<in>set (documents s).
          map chunk_index (filter (\<lambda>c. document_id c = doc_id d) (chunks s)) =
          [0..<chunk_count d]))"

definition chunk_filename :: "store \<Rightarrow> chunk_row \<Rightarrow> pystr" where
  "chunk_filename s c =
     (case find (\<lambda>d. doc_id d = document_id c) (documents s) of
        Some d \<Rightarrow> filename d
      | None \<Rightarrow> [])"

definition new_chunk_rows :: "nat \<Rightarrow> nat \<Rightarrow> nat \<Rightarrow> pystr list \<Rightarrow> chunk_row list" where
  "new_chunk_rows seq did i chs =
     map (\<lambda>(j, c). \<lparr>chunk_id = Suc (seq + j), document_id = did, chunk_index = i + j, content = c\<rparr>)
       (enumerate 0 chs)"

definition ingested :: "store \<Rightarrow> pystr \<Rightarrow> pystr \<Rightarrow> pystr \<Rightarrow> pystr list \<Rightarrow> store" where
  "ingested s name h ftype chs =
     s\<lparr>documents := documents s @
        [\<lparr>doc_id = Suc (documents_seq s), filename = name, file_hash = h, file_type = ftype,
          chunk_count = length chs\<rparr>],
       documents_seq := Suc (documents_seq s),
       chunks := chunks s @ new_chunk_rows (chunks_seq s) (Suc (documents_seq s)) 0 chs,
       chunks_seq := chunks_seq s + length chs\<rparr>"

section \<open>A small concrete installation, used to instantiate the results\<close>

text \<open>
  Two text files with the same two bytes and the same text, one file with an
  unsupported extension, no PDF or DOCX library, and an index whose query answers with
  \<open>response\<close>. The digest is a stand-in that spells the bytes as characters.
\<close>

definition cats_text :: pystr where
  "cats_text = ''Hello world. This is a test document about cats.''"

definition example_env :: "(py_exc + pydict) \<Rightarrow> unit env" where
  "example_env response =
     \<lparr>path_exists = (\<lambda>p. p = ''cats.txt'' \<or> p = ''copy.txt'' \<or> p = ''notes.xyz''),
      read_binary = (\<lambda>p. if p = ''cats.txt'' \<or> p = ''copy.txt'' then Inr [72, 105]
                          else if p = ''notes.xyz'' then Inr [1]
                          else Inl LibraryError),
      read_text = (\<lambda>encoding p. if p = ''cats.txt'' \<or> p = ''copy.txt'' then Inr cats_text
                                  else Inl LibraryError),
      md5_hexdigest = (\<lambda>data. map (\<lambda>b. char_of (unat b)) data),
      basename = (\<lambda>p. p),
      suffix = (\<lambda>p. drop (length p - 4) p),
      pdf_pages = None,
      docx_paragraphs = None,
      collection_add = (\<lambda>coll docs metas ids. (coll, None)),
      collection_query = (\<lambda>coll query n. response),
      delete_collection = (\<lambda>coll. (coll, None)),
      get_or_create_collection = (\<lambda>coll. (coll, None))\<rparr>"

definition cats_store :: store where
  "cats_store =
     \<lparr>documents = [\<lparr>doc_id = 1, filename = ''cats.txt'', file_hash = ''Hi'',
                     file_type = ''.txt'', chunk_count = 1\<rparr>],
      chunks = [\<lparr>chunk_id = 1, document_id = 1, chunk_index = 0, content = cats_text\<rparr>],
      documents_seq = 1, chunks_seq = 1\<rparr>"

definition failing_callback :: callback where
  "failing_callback msg = Some LibraryError"



definition cleared_cats_store :: store where
  "cleared_cats_store = \<lparr>documents = [], chunks = [], documents_seq = 1, chunks_seq = 1\<rparr>"

definition cats_store_again :: store where
  "cats_store_again =
     \<lparr>documents = [\<lparr>doc_id = 2, filename = ''cats.txt'', file_hash = ''Hi'',
                     file_type = ''.txt'', chunk_count = 1\<rparr>],
      chunks = [\<lparr>chunk_id = 2, document_id = 2, chunk_index = 0, content = cats_text\<rparr>],
      documents_seq = 2, chunks_seq = 2\<rparr>"

section \<open>Facts about the string primitives\<close>

lemma last_index_None_iff: "last_index c xs = None \<longleftrightarrow> c \<notin> set xs"
  by (induction xs) (auto split: option.splits)

lemma rfind_absent: "c \<notin> set s \<Longrightarrow> rfind s c i j = - 1"
proof -
  assume a: "c \<notin> set s"
  have "c \<notin> set (take (slice_index (length s) j - slice_index (length s) i)
                        (drop (slice_index (length s) i) s))"
    using a by (auto dest!: in_set_takeD in_set_dropD)
  then have "last_index c (take (slice_index (length s) j - slice_index (length s) i)
                        (drop (slice_index (length s) i) s)) = None"
    by (simp add: last_index_None_iff)
  then show ?thesis
    by (simp add: rfind_def Let_def)
qed

lemma rfind_empty_range:
  "slice_index (length s) j \<le> slice_index (length s) i \<Longrightarrow> rfind s c i j = - 1"
  by (simp add: rfind_def Let_def)

lemma py_slice_empty_range:
  "slice_index (length xs) j \<le> slice_index (length xs) i \<Longrightarrow> py_slice xs i j = []"
  by (simp add: py_slice_def Let_def)

lemma strip_Nil: "strip [] = []"
  by (simp add: strip_def)

lemma last_index_append_absent:
  "c \<notin> set ys \<Longrightarrow> last_index c (xs @ ys) = last_index c xs"
  by (induction xs) (auto simp: last_index_None_iff split: option.splits)

lemma last_dropWhile: "dropWhile P xs \<noteq> [] \<Longrightarrow> last (dropWhile P xs) = last xs"
  by (induction xs) (auto split: if_splits)

lemma strip_trimmed:
  assumes "strip s \<noteq> []"
  shows "\<not> isspace (hd (strip s)) \<and> \<not> isspace (last (strip s))"
proof -
  let ?d = "dropWhile isspace s"
  let ?e = "dropWhile isspace (rev ?d)"
  have e: "?e \<noteq> []" using assms by (simp add: strip_def)
  have "?d = [] \<Longrightarrow> ?e = []" by (simp del: dropWhile_eq_Nil_conv)
  with e have d: "?d \<noteq> []" by blast
  have "last (strip s) = hd ?e" using e by (simp add: strip_def last_rev)
  moreover have "\<not> isspace (hd ?e)" using e by (rule hd_dropWhile)
  moreover have "hd (strip s) = last ?e" using e by (simp add: strip_def hd_rev)
  moreover have "last ?e = last (rev ?d)" using e by (rule last_dropWhile)
  moreover have "last (rev ?d) = hd ?d" using d by (simp add: last_rev)
  moreover have "\<not> isspace (hd ?d)" using d by (rule hd_dropWhile)
  ultimately show ?thesis by simp
qed

lemma strip_replicate: "\<not> isspace c \<Longrightarrow> strip (replicate n c) = replicate n c"
  by (cases n) (simp_all add: strip_def replicate_append_same [symmetric] del: replicate_Suc)




lemma like_all: "like ''%'' s" "like ''%%'' s"
  by (induction s) simp_all










lemma split_aux_spaces: "\<forall>c\<in>set s. isspace c \<Longrightarrow> split_aux [] s = []"
  by (induction s) simp_all

lemma py_lower_spaces: "\<forall>c\<in>set s. isspace c \<Longrightarrow> py_lower s = s"
  by (induction s) (auto simp: py_lower_def py_lower_char_def isspace_def Let_def)





section \<open>The chunker\<close>

lemma window_chunk_strip: "strip (py_slice txt i j) \<noteq> [] \<Longrightarrow> window_chunk txt (strip (py_slice txt i j))"
  unfolding window_chunk_def using strip_trimmed by blast

lemma chunk_loop_chunks:
  assumes "chunk_loop t cs ov st acc = Some ys"
  shows "(\<forall>c\<in>set acc. window_chunk t c) \<longrightarrow> (\<forall>c\<in>set ys. window_chunk t c)"
proof (rule chunk_loop.raw_induct[where P = "\<lambda>t cs ov st acc ys.
         (\<forall>c\<in>set acc. window_chunk t c) \<longrightarrow> (\<forall>c\<in>set ys. window_chunk t c)", OF _ assms], goal_cases)
  case (1 loop t cs ov st acc ys)
  show ?case
  proof (cases "st < int (length t)")
    case False
    with 1(2) show ?thesis by simp
  next
    case True
    define e where "e = (let end0 = st + cs in
                     if end0 < int (length t) then
                      let last_sentence =
                            max (max (rfind t CHR ''.'' st end0)
                                     (rfind t CHR ''!'' st end0))
                                (rfind t CHR ''?'' st end0)
                      in if last_sentence > st then last_sentence + 1 else end0
                    else end0)"
    define c where "c = strip (py_slice t st e)"
    have cond: "(st < int (length t)) = True" using True by simp
    from 1(2) have step: "loop t cs ov (e - ov) (if c \<noteq> [] then acc @ [c] else acc) = Some ys"
      by (simp only: Let_def e_def c_def cond if_True)
    show ?thesis
    proof
      assume a: "\<forall>x\<in>set acc. window_chunk t x"
      have "\<forall>x\<in>set (if c \<noteq> [] then acc @ [c] else acc). window_chunk t x"
        using a window_chunk_strip[of t st e] by (auto simp: c_def)
      with 1(1)[OF step] show "\<forall>c\<in>set ys. window_chunk t c" by blast
    qed
  qed
qed

lemma chunk_loop_plain_step:
  assumes "CHR ''.'' \<notin> set t" "CHR ''!'' \<notin> set t" "CHR ''?'' \<notin> set t"
    and "0 \<le> st" "st < int (length t)"
  shows "chunk_loop t cs ov st acc =
         chunk_loop t cs ov (st + cs - ov)
           (if strip (py_slice t st (st + cs)) \<noteq> [] then acc @ [strip (py_slice t st (st + cs))]
            else acc)"
  using assms by (subst chunk_loop.simps) (simp add: rfind_absent Let_def)

lemma chunk_loop_stuck:
  assumes "chunk_loop t cs ov st acc = Some ys"
  shows "\<not> (length t = 2500 \<and> cs = 1000 \<and> ov = 200 \<and> st = - 200)"
proof (rule chunk_loop.raw_induct[where P = "\<lambda>t cs ov st acc ys.
         \<not> (length t = 2500 \<and> cs = 1000 \<and> ov = 200 \<and> st = - 200)", OF _ assms], goal_cases)
  case (1 loop t cs ov st acc ys)
  show ?case
  proof
    assume h: "length t = 2500 \<and> cs = 1000 \<and> ov = 200 \<and> st = - 200"
    have r: "rfind t c (- 200) 800 = - 1" for c
      using h by (intro rfind_empty_range) (simp add: slice_index_def)
    have s: "py_slice t (- 200) 0 = []"
      using h by (intro py_slice_empty_range) (simp add: slice_index_def)
    from 1(2) h have "loop t 1000 200 (- 200) acc = Some ys"
      by (simp add: r s strip_Nil Let_def)
    from 1(1)[OF this] h show False by simp
  qed
qed

lemma chunk_loop_exit: "int (length t) \<le> st \<Longrightarrow> chunk_loop t cs ov st acc = Some acc"
  by (subst chunk_loop.simps) simp

text \<open>
  C1 (termination of \<open>chunk_text\<close> whenever \<open>overlap < chunk_size\<close>).
  The loop does not always advance. When the sentence break shortens a window to end
  fewer than \<open>overlap\<close> characters after its start, the next start
  \<open>end - overlap\<close> lies before the current one. With the default parameters and
  the 2500-character text \<open>a.aaa...\<close> the first window ends at offset 2, the start
  becomes \<open>-198\<close>, then \<open>-200\<close>, and from there every iteration produces
  the same state: the loop never returns.
\<close>

theorem chunk_text_diverges: "chunk_text (''a.'' @ replicate 2498 CHR ''a'') 1000 200 = None"
proof -
  define t where "t = ''a.'' @ replicate 2498 CHR ''a''"
  have len: "length t = 2500" by (simp add: t_def)
  have li: "last_index c (replicate 998 CHR ''a'') = None" if "c \<noteq> CHR ''a''" for c
    using that by (simp add: last_index_None_iff)
  have r1: "rfind t CHR ''.'' 0 1000 = 1"
    by (simp add: rfind_def slice_index_def t_def li)
  have r2: "rfind t CHR ''!'' 0 1000 = - 1" by (rule rfind_absent) (simp add: t_def)
  have r3: "rfind t CHR ''?'' 0 1000 = - 1" by (rule rfind_absent) (simp add: t_def)
  have s1: "py_slice t 0 2 = ''a.''" by (simp add: py_slice_def slice_index_def t_def)
  have st1: "strip ''a.'' = ''a.''" by (simp add: strip_def isspace_def)
  have step1: "chunk_loop t 1000 200 0 [] = chunk_loop t 1000 200 (- 198) [''a.'']"
    by (subst chunk_loop.simps) (simp add: len r1 r2 r3 s1 st1 Let_def)
  have r4: "rfind t c (- 198) 802 = - 1" for c
    by (intro rfind_empty_range) (simp add: slice_index_def len)
  have s2: "py_slice t (- 198) 0 = []"
    by (intro py_slice_empty_range) (simp add: slice_index_def len)
  have step2: "chunk_loop t 1000 200 (- 198) [''a.''] = chunk_loop t 1000 200 (- 200) [''a.'']"
    by (subst chunk_loop.simps) (simp add: len r4 s2 strip_Nil Let_def)
  have "chunk_loop t 1000 200 (- 200) [''a.''] = None"
    using chunk_loop_stuck[of t 1000 200 "- 200" "[''a.'']"] len
    by (cases "chunk_loop t 1000 200 (- 200) [''a.'']") auto
  with step1 step2 have "chunk_text t 1000 200 = None"
    by (simp add: chunk_text_def len)
  then show ?thesis by (simp only: t_def)
qed

text \<open>
  C4 (short texts and trimming), as amended. A text no longer than \<open>chunk_size\<close>
  is returned as the single chunk, unchanged: it is not trimmed, and a whitespace-only
  text is kept. In the sliding-window case every chunk the loop produces is the
  non-empty trimmed content of a window \<open>text[i:j]\<close>.
\<close>

theorem chunk_text_short_unchanged_long_trimmed:
  "(int (length txt) \<le> chunk_size \<longrightarrow> chunk_text txt chunk_size overlap = Some [txt]) \<and>
   (chunk_size < int (length txt) \<and> chunk_text txt chunk_size overlap = Some chs \<longrightarrow>
      (\<forall>c\<in>set chs. c \<noteq> [] \<and> \<not> isspace (hd c) \<and> \<not> isspace (last c) \<and>
                    (\<exists>i j. c = strip (py_slice txt i j))))"
proof (intro conjI impI)
  assume "int (length txt) \<le> chunk_size"
  then show "chunk_text txt chunk_size overlap = Some [txt]" by (simp add: chunk_text_def)
next
  assume a: "chunk_size < int (length txt) \<and> chunk_text txt chunk_size overlap = Some chs"
  then have "chunk_loop txt chunk_size overlap 0 [] = Some chs"
    by (auto simp: chunk_text_def split: if_splits)
  from chunk_loop_chunks[OF this]
  show "\<forall>c\<in>set chs. c \<noteq> [] \<and> \<not> isspace (hd c) \<and> \<not> isspace (last c) \<and>
                    (\<exists>i j. c = strip (py_slice txt i j))"
    by (simp add: window_chunk_def)
qed

text \<open>
  The claim as written fails on short inputs: \<open>" a "\<close> comes back untrimmed and
  a whitespace-only text comes back as one chunk.
\<close>

theorem chunk_text_short_not_trimmed:
  "chunk_text '' a '' 1000 200 = Some ['' a ''] \<and>
   chunk_text '' a '' 1000 200 \<noteq> Some [strip '' a ''] \<and>
   chunk_text ''  '' 1000 200 = Some [''  ''] \<and>
   chunk_text ''  '' 1000 200 \<noteq> Some []"
  by (simp add: chunk_text_def strip_def isspace_def)

theorem chunk_text_short_unchanged_long_trimmed_witness:
  "int (length ''ab'') \<le> 4 \<and> chunk_text ''ab'' 4 1 = Some [''ab''] \<and>
   4 < int (length ''ab  cd efg'') \<and>
   chunk_text ''ab  cd efg'' 4 1 = Some [''ab'', ''cd'', ''efg'', ''g''] \<and>
   \<not> isspace (hd ''cd'') \<and> \<not> isspace (last ''cd'')"
proof -
  have e: "chunk_text ''ab  cd efg'' 4 1 = Some [''ab'', ''cd'', ''efg'', ''g'']"
    unfolding chunk_text_def
    by (simp add: chunk_loop.simps rfind_def py_slice_def slice_index_def strip_def
          isspace_def Let_def)
  from chunk_text_short_unchanged_long_trimmed[of "''ab  cd efg''" 4 1 "[''ab'', ''cd'', ''efg'', ''g'']"] e
  have "\<not> isspace (hd ''cd'') \<and> \<not> isspace (last ''cd'')"
    by simp
  moreover from chunk_text_short_unchanged_long_trimmed[of "''ab''" 4 1]
  have "chunk_text ''ab'' 4 1 = Some [''ab'']" by simp
  ultimately show ?thesis using e by simp
qed

text \<open>
  C5 (2500 characters without sentence punctuation, defaults 1000/200). The loop
  returns, and its chunks are the trimmed, non-empty windows \<open>text[s:s+1000]\<close> for
  the start offsets 0, 800, 1600, 2400: each start is 800 after the previous one. The
  last 200 characters of the first window are the first 200 of the second, likewise for
  the second and third; the final window (100 characters) is the tail of the third.
\<close>

theorem chunk_text_unpunctuated_2500:
  assumes "length t = 2500" and "CHR ''.'' \<notin> set t" and "CHR ''!'' \<notin> set t"
    and "CHR ''?'' \<notin> set t"
  shows "chunk_text t 1000 200 =
           Some (filter (\<lambda>c. c \<noteq> [])
                   (map (\<lambda>start. strip (py_slice t start (start + 1000)))
                      [0, 800, 1600, 2400])) \<and>
         drop 800 (py_slice t 0 1000) = take 200 (py_slice t 800 1800) \<and>
         drop 800 (py_slice t 800 1800) = take 200 (py_slice t 1600 2600) \<and>
         py_slice t 2400 3400 = drop 800 (py_slice t 1600 2600)"
proof -
  note step = chunk_loop_plain_step[OF assms(2,3,4)]
  define w where "w = (\<lambda>start. strip (py_slice t start (start + 1000)))"
  define a1 where "a1 = (if w 0 \<noteq> [] then [] @ [w 0] else [])"
  define a2 where "a2 = (if w 800 \<noteq> [] then a1 @ [w 800] else a1)"
  define a3 where "a3 = (if w 1600 \<noteq> [] then a2 @ [w 1600] else a2)"
  define a4 where "a4 = (if w 2400 \<noteq> [] then a3 @ [w 2400] else a3)"
  have "chunk_text t 1000 200 = chunk_loop t 1000 200 0 []"
    by (simp add: chunk_text_def assms(1))
  also have "\<dots> = chunk_loop t 1000 200 800 a1"
    using step[of 0 1000 200 "[]"] by (simp add: assms(1) a1_def w_def)
  also have "\<dots> = chunk_loop t 1000 200 1600 a2"
    using step[of 800 1000 200 a1] by (simp add: assms(1) a2_def w_def)
  also have "\<dots> = chunk_loop t 1000 200 2400 a3"
    using step[of 1600 1000 200 a2] by (simp add: assms(1) a3_def w_def)
  also have "\<dots> = chunk_loop t 1000 200 3200 a4"
    using step[of 2400 1000 200 a3] by (simp add: assms(1) a4_def w_def)
  also have "\<dots> = Some a4"
    by (rule chunk_loop_exit) (simp add: assms(1))
  also have "a4 = filter (\<lambda>c. c \<noteq> []) (map w [0, 800, 1600, 2400])"
    by (simp add: a4_def a3_def a2_def a1_def)
  finally have main: "chunk_text t 1000 200 =
      Some (filter (\<lambda>c. c \<noteq> [])
              (map (\<lambda>start. strip (py_slice t start (start + 1000))) [0, 800, 1600, 2400]))"
    by (simp only: w_def)
  have "drop 800 (py_slice t 0 1000) = take 200 (py_slice t 800 1800)"
    and "drop 800 (py_slice t 800 1800) = take 200 (py_slice t 1600 2600)"
    and "py_slice t 2400 3400 = drop 800 (py_slice t 1600 2600)"
    by (simp_all add: py_slice_def slice_index_def assms(1) drop_take)
  with main show ?thesis by blast
qed

theorem chunk_text_unpunctuated_2500_witness:
  "length (replicate 2500 CHR ''a'') = 2500 \<and>
   CHR ''.'' \<notin> set (replicate 2500 CHR ''a'') \<and>
   CHR ''!'' \<notin> set (replicate 2500 CHR ''a'') \<and>
   CHR ''?'' \<notin> set (replicate 2500 CHR ''a'') \<and>
   chunk_text (replicate 2500 CHR ''a'') 1000 200 =
     Some [replicate 1000 CHR ''a'', replicate 1000 CHR ''a'',
           replicate 900 CHR ''a'', replicate 100 CHR ''a'']"
proof -
  have ns: "\<not> isspace CHR ''a''" by (simp add: isspace_def)
  have sl: "py_slice (replicate 2500 CHR ''a'') 0 1000 = replicate 1000 CHR ''a''"
    "py_slice (replicate 2500 CHR ''a'') 800 1800 = replicate 1000 CHR ''a''"
    "py_slice (replicate 2500 CHR ''a'') 1600 2600 = replicate 900 CHR ''a''"
    "py_slice (replicate 2500 CHR ''a'') 2400 3400 = replicate 100 CHR ''a''"
    by (simp_all add: py_slice_def slice_index_def)
  have ne: "replicate 1000 CHR ''a'' \<noteq> []" "replicate 900 CHR ''a'' \<noteq> []"
    "replicate 100 CHR ''a'' \<noteq> []"
    by simp_all
  from chunk_text_unpunctuated_2500[of "replicate 2500 CHR ''a''"]
  have "chunk_text (replicate 2500 CHR ''a'') 1000 200 =
     Some [replicate 1000 CHR ''a'', replicate 1000 CHR ''a'',
           replicate 900 CHR ''a'', replicate 100 CHR ''a'']"
    by (simp add: sl strip_replicate[OF ns] ne del: replicate_eq_replicate)
  then show ?thesis by simp
qed

section \<open>The store\<close>

lemma new_chunk_rows_Nil: "new_chunk_rows seq did i [] = []"
  by (simp add: new_chunk_rows_def)

lemma new_chunk_rows_Cons:
  "new_chunk_rows seq did i (c # cs) =
     \<lparr>chunk_id = Suc seq, document_id = did, chunk_index = i, content = c\<rparr> #
     new_chunk_rows (Suc seq) did (Suc i) cs"
  by (simp add: new_chunk_rows_def enumerate_Suc_eq map_idI o_def split_def)

lemma insert_chunks_conn:
  "insert_chunks did i chs conn =
     conn\<lparr>pending := (pending conn)
            \<lparr>chunks := chunks (pending conn) @ new_chunk_rows (chunks_seq (pending conn)) did i chs,
             chunks_seq := chunks_seq (pending conn) + length chs\<rparr>\<rparr>"
proof (induction chs arbitrary: i conn)
  case Nil
  then show ?case by (simp add: new_chunk_rows_Nil)
next
  case (Cons c cs)
  show ?case
    by (simp add: Cons.IH execute_def insert_chunk_def new_chunk_rows_Cons)
qed

lemma map_fst_enumerate0: "map (\<lambda>x. g (fst x)) (enumerate 0 xs) = map g [0..<length xs]"
proof -
  have "map (\<lambda>x. g (fst x)) (enumerate 0 xs) = map g (map fst (enumerate 0 xs))"
    by (simp only: map_map o_def)
  then show ?thesis by (simp add: map_fst_enumerate)
qed

lemma new_chunk_rows_props:
  "map chunk_id (new_chunk_rows seq did i chs) = map (\<lambda>j. Suc (seq + j)) [0..<length chs]"
  "map document_id (new_chunk_rows seq did i chs) = replicate (length chs) did"
  "map chunk_index (new_chunk_rows seq did i chs) = map (\<lambda>j. i + j) [0..<length chs]"
  "map content (new_chunk_rows seq did i chs) = chs"
  "length (new_chunk_rows seq did i chs) = length chs"
proof -
  show "map chunk_id (new_chunk_rows seq did i chs) = map (\<lambda>j. Suc (seq + j)) [0..<length chs]"
    using map_fst_enumerate0[of "\<lambda>j. Suc (seq + j)" chs]
    by (simp add: new_chunk_rows_def split_def o_def)
  show "map chunk_index (new_chunk_rows seq did i chs) = map (\<lambda>j. i + j) [0..<length chs]"
    using map_fst_enumerate0[of "\<lambda>j. i + j" chs]
    by (simp add: new_chunk_rows_def split_def o_def)
  have "map content (new_chunk_rows seq did i chs) = map snd (enumerate 0 chs)"
    by (simp add: new_chunk_rows_def split_def o_def)
  then show "map content (new_chunk_rows seq did i chs) = chs"
    by (simp add: map_snd_enumerate)
  show "length (new_chunk_rows seq did i chs) = length chs"
    by (simp add: new_chunk_rows_def)
  have "map document_id (new_chunk_rows seq did i chs) = map (\<lambda>_. did) (enumerate 0 chs)"
    by (simp add: new_chunk_rows_def split_def o_def)
  then show "map document_id (new_chunk_rows seq did i chs) = replicate (length chs) did"
    by (simp add: map_replicate_const)
qed

lemma store_document_db:
  assumes "h \<notin> set (map file_hash (documents (db self)))"
  shows "store_document env self (connect (db self)) cb name h ftype chs =
           (case invoke cb ''Criando embeddings para busca...'' of
              Some e \<Rightarrow> (False, self\<lparr>db := ingested (db self) name h ftype chs\<rparr>)
            | None \<Rightarrow> (True, add_embeddings env (self\<lparr>db := ingested (db self) name h ftype chs\<rparr>)
                             (Suc (documents_seq (db self))) name chs))"
  using assms
  by (simp add: store_document_def insert_document_def Let_def insert_chunks_conn connect_def
        commit_def ingested_def split: option.split)

lemma select_id_by_hash_None:
  "select_id_by_hash s h = None \<longleftrightarrow> h \<notin> set (map file_hash (documents s))"
  by (cases "filter (\<lambda>d. file_hash d = h) (documents s)")
     (auto simp: select_id_by_hash_def filter_empty_conv dest: filter_eq_ConsD)

lemma add_embeddings_db: "db (add_embeddings env self did name chs) = db self"
  by (simp add: add_embeddings_def split: option.split)

lemma read_blocks_concat: "foldl (\<lambda>fed chunk. fed @ chunk) acc (read_blocks n bs) = acc @ (if n = 0 then [] else bs)"
proof (induction n bs arbitrary: acc rule: read_blocks.induct)
  case (1 n bs)
  show ?case
  proof (cases "n = 0 \<or> bs = []")
    case True
    then show ?thesis by (auto simp: read_blocks.simps[of n bs])
  next
    case False
    then show ?thesis using 1[OF False] by (simp add: read_blocks.simps[of n bs])
  qed
qed

lemma calculate_file_hash_eq:
  "read_binary env p = Inr data \<Longrightarrow> calculate_file_hash env p = Inr (md5_hexdigest env data)"
  by (simp add: calculate_file_hash_def read_blocks_concat)

lemma new_chunk_rows_document_id:
  "c \<in> set (new_chunk_rows seq did i chs) \<Longrightarrow> document_id c = did"
proof -
  assume "c \<in> set (new_chunk_rows seq did i chs)"
  then have "document_id c \<in> set (map document_id (new_chunk_rows seq did i chs))" by simp
  then show ?thesis by (simp add: new_chunk_rows_props(2))
qed

lemma new_chunk_rows_chunk_id:
  "c \<in> set (new_chunk_rows seq did i chs) \<Longrightarrow> seq < chunk_id c \<and> chunk_id c \<le> seq + length chs"
proof -
  assume "c \<in> set (new_chunk_rows seq did i chs)"
  then have "chunk_id c \<in> set (map chunk_id (new_chunk_rows seq did i chs))" by simp
  then show ?thesis by (auto simp: new_chunk_rows_props(1))
qed

lemma new_chunk_rows_sorted: "sorted_wrt (<) (map chunk_id (new_chunk_rows seq did i chs))"
  by (simp add: new_chunk_rows_props(1) sorted_wrt_map sorted_wrt_upt)

lemma ingested_fields:
  "documents (ingested s name h ftype chs) = documents s @
        [\<lparr>doc_id = Suc (documents_seq s), filename = name, file_hash = h, file_type = ftype,
          chunk_count = length chs\<rparr>]"
  "chunks (ingested s name h ftype chs) =
     chunks s @ new_chunk_rows (chunks_seq s) (Suc (documents_seq s)) 0 chs"
  "documents_seq (ingested s name h ftype chs) = Suc (documents_seq s)"
  "chunks_seq (ingested s name h ftype chs) = chunks_seq s + length chs"
  by (simp_all add: ingested_def)

lemma store_ok_ingested:
  assumes ok: "store_ok s" and fresh: "h \<notin> set (map file_hash (documents s))"
  shows "store_ok (ingested s name h ftype chs)"
proof -
  define N where "N = Suc (documents_seq s)"
  define rows where "rows = new_chunk_rows (chunks_seq s) N 0 chs"
  define nd where "nd = \<lparr>doc_id = N, filename = name, file_hash = h, file_type = ftype,
          chunk_count = length chs\<rparr>"
  note f = ingested_fields[of s name h ftype chs, folded N_def, folded rows_def nd_def]
  from ok have d1: "distinct (map doc_id (documents s))"
    and d2: "distinct (map file_hash (documents s))"
    and d3: "\<forall>d\<in>set (documents s). doc_id d \<le> documents_seq s"
    and d4: "sorted_wrt (<) (map chunk_id (chunks s))"
    and d5: "\<forall>c\<in>set (chunks s). chunk_id c \<le> chunks_seq s"
    and d6: "\<forall>c\<in>set (chunks s). document_id c \<in> doc_id ` set (documents s)"
    and d7: "\<forall>d\<in>set (documents s).
          map chunk_index (filter (\<lambda>c. document_id c = doc_id d) (chunks s)) = [0..<chunk_count d]"
    by (simp_all add: store_ok_def)
  have Nnew: "N \<notin> doc_id ` set (documents s)" using d3 by (auto simp: N_def)
  have rows_doc: "\<forall>c\<in>set rows. document_id c = N"
    using new_chunk_rows_document_id by (auto simp: rows_def)
  have rows_id: "\<forall>c\<in>set rows. chunks_seq s < chunk_id c \<and> chunk_id c \<le> chunks_seq s + length chs"
    using new_chunk_rows_chunk_id by (auto simp: rows_def)
  have old_doc: "\<forall>c\<in>set (chunks s). document_id c \<noteq> N" using d6 Nnew by auto
  have c1: "distinct (map doc_id (documents s @ [nd]))"
    using d1 Nnew by (simp add: nd_def)
  have c2: "distinct (map file_hash (documents s @ [nd]))"
    using d2 fresh by (simp add: nd_def)
  have c3: "\<forall>d\<in>set (documents s @ [nd]). doc_id d \<le> N"
    using d3 by (auto simp: nd_def N_def)
  have c4: "sorted_wrt (<) (map chunk_id (chunks s @ rows))"
    using d4 d5 rows_id new_chunk_rows_sorted[of "chunks_seq s" N 0 chs]
    by (fastforce simp: sorted_wrt_append rows_def)
  have c5: "\<forall>c\<in>set (chunks s @ rows). chunk_id c \<le> chunks_seq s + length chs"
    using d5 rows_id by fastforce
  have c6: "\<forall>c\<in>set (chunks s @ rows). document_id c \<in> doc_id ` set (documents s @ [nd])"
    using d6 rows_doc by (auto simp: nd_def)
  have old_filter: "filter (\<lambda>c. document_id c = doc_id d) rows = []" if "d \<in> set (documents s)" for d
    using rows_doc Nnew that by (auto simp: filter_empty_conv)
  have new_filter_old: "filter (\<lambda>c. document_id c = N) (chunks s) = []"
    using old_doc by (auto simp: filter_empty_conv)
  have new_filter_rows: "filter (\<lambda>c. document_id c = N) rows = rows"
    using rows_doc by (auto simp: filter_id_conv)
  have rows_idx: "map chunk_index rows = [0..<length chs]"
    by (simp add: rows_def new_chunk_rows_props(3) map_idI)
  have c7: "\<forall>d\<in>set (documents s @ [nd]).
          map chunk_index (filter (\<lambda>c. document_id c = doc_id d) (chunks s @ rows)) =
          [0..<chunk_count d]"
  proof
    fix d assume "d \<in> set (documents s @ [nd])"
    then consider "d \<in> set (documents s)" | "d = nd" by auto
    then show "map chunk_index (filter (\<lambda>c. document_id c = doc_id d) (chunks s @ rows)) =
          [0..<chunk_count d]"
    proof cases
      case 1
      then show ?thesis using d7 old_filter[OF 1] by simp
    next
      case 2
      then show ?thesis using new_filter_old new_filter_rows rows_idx by (simp add: nd_def)
    qed
  qed
  show ?thesis
    unfolding store_ok_def f using c1 c2 c3 c4 c5 c6 c7 by (simp add: N_def)
qed

lemma store_ok_setup: "store_ok setup_database"
  by (simp add: store_ok_def setup_database_def)

lemma clear_db:
  "close (run_statements clear_statements (connect s)) = s\<lparr>chunks := [], documents := []\<rparr>"
  by (simp add: close_def run_statements_def clear_statements_def connect_def execute_def
        commit_def delete_chunks_def delete_documents_def)

lemma store_ok_cleared: "store_ok (s\<lparr>chunks := [], documents := []\<rparr>)"
  by (simp add: store_ok_def)

section \<open>Ingestion\<close>

lemma pending_connect: "pending (connect s) = s"
  by (simp add: connect_def)

lemma process_document_duplicate:
  assumes "path_exists env p" and "read_binary env p = Inr data"
    and "md5_hexdigest env data \<in> set (map file_hash (documents (db self)))"
  shows "process_document env self p cb = Some (True, self)"
proof -
  from assms(3) obtain i where "select_id_by_hash (db self) (md5_hexdigest env data) = Some i"
    using select_id_by_hash_None[of "db self" "md5_hexdigest env data"] by (cases "select_id_by_hash (db self) (md5_hexdigest env data)") auto
  then show ?thesis
    using assms(1) calculate_file_hash_eq[OF assms(2)]
    by (simp add: process_document_def Let_def pending_connect)
qed

lemma process_document_outcome:
  assumes "process_document env self p cb = Some (b, self')"
  shows "(self' = self \<and>
          (b \<longrightarrow> (\<exists>h. calculate_file_hash env p = Inr h \<and>
                        h \<in> set (map file_hash (documents (db self)))))) \<or>
         (\<exists>h chs. calculate_file_hash env p = Inr h \<and>
                  h \<notin> set (map file_hash (documents (db self))) \<and>
                  db self' = ingested (db self) (basename env p) h (py_lower (suffix env p)) chs)"
proof (cases "path_exists env p")
  case False
  with assms show ?thesis by (simp add: process_document_def)
next
  case True
  show ?thesis
  proof (cases "calculate_file_hash env p")
    case (Inl e)
    with assms True show ?thesis by (simp add: process_document_def)
  next
    case (Inr h)
    show ?thesis
    proof (cases "h \<in> set (map file_hash (documents (db self)))")
      case dup: True
      then obtain i where "select_id_by_hash (db self) h = Some i"
        using select_id_by_hash_None[of "db self" h] by (cases "select_id_by_hash (db self) h") auto
      with assms True Inr dup show ?thesis
        by (simp add: process_document_def Let_def pending_connect)
    next
      case fresh: False
      then have sel: "select_id_by_hash (db self) h = None"
        by (simp add: select_id_by_hash_None)
      note sd = store_document_db[OF fresh]
      from assms True Inr sel fresh show ?thesis
        by (auto simp: process_document_def Let_def pending_connect sd add_embeddings_db
              split: if_splits option.splits sum.splits)
    qed
  qed
qed

lemma process_document_store_ok:
  assumes "store_ok (db self)" and "process_document env self p cb = Some (b, self')"
  shows "store_ok (db self')"
  using process_document_outcome[OF assms(2)] assms(1) store_ok_ingested by auto

lemma process_document_success_row:
  assumes "process_document env self p cb = Some (True, self')"
    and "read_binary env p = Inr data"
  shows "md5_hexdigest env data \<in> set (map file_hash (documents (db self')))"
  using process_document_outcome[OF assms(1)] calculate_file_hash_eq[OF assms(2)]
  by (auto simp: ingested_fields)

lemma unique_row':
  "distinct (map f xs) \<Longrightarrow> k \<in> f ` set xs \<Longrightarrow> length (filter (\<lambda>y. f y = k) xs) = 1"
proof (induction xs)
  case Nil
  then show ?case by simp
next
  case (Cons a xs)
  show ?case
  proof (cases "f a = k")
    case True
    have "f y \<noteq> k" if "y \<in> set xs" for y
      using Cons.prems(1) True that by (metis distinct.simps(2) imageI list.simps(9) list.set_map)
    then have "filter (\<lambda>y. f y = k) xs = []"
      by (simp add: filter_empty_conv)
    with True show ?thesis by simp
  next
    case False
    with Cons show ?thesis by auto
  qed
qed

lemma example_ingest:
  "process_document (example_env r) \<lparr>db = setup_database, collection = None\<rparr> ''cats.txt'' None =
     Some (True, \<lparr>db = cats_store, collection = None\<rparr>)"
  by (simp add: process_document_def example_env_def calculate_file_hash_def
        read_blocks.simps[of 4096 "[72, 105]"] read_blocks.simps[of 4096 "[]"] setup_database_def select_id_by_hash_def connect_def
        py_lower_def py_lower_char_def invoke_def extract_text_from_txt_def cats_text_def
        strip_def isspace_def chunk_text_def store_document_def insert_document_def
        execute_def insert_chunk_def commit_def add_embeddings_def cats_store_def Let_def char_of_eq_iff)

text \<open>
  C3 (idempotent ingestion). Once \<open>process_document\<close> has reported success for a file,
  a second call on any path whose bytes are the same reports success again and returns
  the processor unchanged, whatever the second callback does and whatever the extraction
  libraries of the second environment would do: the duplicate is found by its fingerprint
  before the first callback and before any extraction or chunking. The store then holds
  exactly one document row with that fingerprint, and the chunk rows of every document
  carry the indices \<open>0..chunk_count-1\<close> once each.
\<close>

theorem process_document_idempotent:
  assumes "store_ok (db self)"
    and "read_binary env p1 = Inr data"
    and "path_exists env' p2" and "read_binary env' p2 = Inr data"
    and "md5_hexdigest env' = md5_hexdigest env"
    and "process_document env self p1 cb1 = Some (True, self1)"
  shows "process_document env' self1 p2 cb2 = Some (True, self1) \<and>
         length (filter (\<lambda>d. file_hash d = md5_hexdigest env data) (documents (db self1))) = 1 \<and>
         (\<forall>d\<in>set (documents (db self1)).
             map chunk_index (filter (\<lambda>c. document_id c = doc_id d) (chunks (db self1))) =
             [0..<chunk_count d]) \<and>
         store_ok (db self1)"
proof -
  have ok: "store_ok (db self1)"
    by (rule process_document_store_ok[OF assms(1,6)])
  have row: "md5_hexdigest env data \<in> set (map file_hash (documents (db self1)))"
    by (rule process_document_success_row[OF assms(6,2)])
  have again: "process_document env' self1 p2 cb2 = Some (True, self1)"
    using process_document_duplicate[OF assms(3,4), of self1 cb2] row assms(5) by simp
  have one: "length (filter (\<lambda>d. file_hash d = md5_hexdigest env data) (documents (db self1))) = 1"
    using unique_row'[of file_hash "documents (db self1)" "md5_hexdigest env data"] ok row
    by (simp add: store_ok_def)
  from ok have idx: "\<forall>d\<in>set (documents (db self1)).
             map chunk_index (filter (\<lambda>c. document_id c = doc_id d) (chunks (db self1))) =
             [0..<chunk_count d]"
    by (simp add: store_ok_def)
  from again one idx ok show ?thesis by blast
qed

theorem process_document_idempotent_witness:
  "store_ok (db \<lparr>db = setup_database, collection = None :: unit option\<rparr>) \<and>
   read_binary (example_env (Inl LibraryError)) ''cats.txt'' = Inr [72, 105] \<and>
   path_exists (example_env (Inl LibraryError)) ''copy.txt'' \<and>
   read_binary (example_env (Inl LibraryError)) ''copy.txt'' = Inr [72, 105] \<and>
   process_document (example_env (Inl LibraryError)) \<lparr>db = setup_database, collection = None\<rparr>
     ''cats.txt'' None = Some (True, \<lparr>db = cats_store, collection = None\<rparr>) \<and>
   process_document (example_env (Inl LibraryError)) \<lparr>db = cats_store, collection = None\<rparr>
     ''copy.txt'' (Some failing_callback) = Some (True, \<lparr>db = cats_store, collection = None\<rparr>) \<and>
   length (documents cats_store) = 1 \<and> length (chunks cats_store) = 1"
proof -
  have 1: "store_ok (db \<lparr>db = setup_database, collection = None :: unit option\<rparr>)"
    by (simp add: store_ok_setup)
  have 2: "read_binary (example_env (Inl LibraryError)) ''cats.txt'' = Inr [72, 105]"
    and 3: "path_exists (example_env (Inl LibraryError)) ''copy.txt''"
    and 4: "read_binary (example_env (Inl LibraryError)) ''copy.txt'' = Inr [72, 105]"
    by (simp_all add: example_env_def)
  note 5 = example_ingest[of "Inl LibraryError"]
  from process_document_idempotent[OF 1 2 3 4 refl 5, of "Some failing_callback"]
  have "process_document (example_env (Inl LibraryError)) \<lparr>db = cats_store, collection = None\<rparr>
     ''copy.txt'' (Some failing_callback) = Some (True, \<lparr>db = cats_store, collection = None\<rparr>)"
    by simp
  with 1 2 3 4 5 show ?thesis by (simp add: cats_store_def)
qed




section \<open>Retrieval\<close>



lemma cats_keyword_search:
  "keyword_search cats_store ''cats'' 5 [] =
     [\<lparr>r_content = PStr cats_text, r_filename = PStr ''cats.txt'', r_chunk_index = PInt 0,
       relevance_score = PFloat (1 / 2)\<rparr>]"
  by (simp add: keyword_search_def select_chunks_def join_chunks_documents_def cats_store_def
        cats_text_def py_split_def py_lower_def py_lower_char_def isspace_def sql_lower_def
        sql_lower_char_def sql_limit_def keyword_result_def Let_def)



text \<open>
  C9 (zero semantic hits). When the index is configured, the query succeeds and its
  \<open>documents\<close> entry is falsy or has a falsy first element, the try block returns the
  empty list; this holds for every content of the relational store, which is therefore
  not consulted. More generally, whenever the try block is left by its
  \<^verbatim>\<open>return\<close>, the result does not depend on the store: the keyword path is
  entered only when the index is absent or the block raised.
\<close>

theorem semantic_zero_hits_returns_empty:
  assumes "collection self = Some coll"
    and "collection_query env coll query max_results = Inr search_results"
    and "dict_getitem search_results ''documents'' = Inr docs"
    and "\<not> truthy docs \<or> (\<exists>docs0. getitem_index docs 0 = Inr docs0 \<and> \<not> truthy docs0)"
  shows "semantic_search env coll query max_results [] = ([], None) \<and>
         search_knowledge env (self\<lparr>db := s\<rparr>) query max_results = Inr [] \<and>
         (\<forall>results. semantic_search env coll query max_results [] = (results, None) \<longrightarrow>
            search_knowledge env (self\<lparr>db := s\<rparr>) query max_results = Inr results)"
proof -
  have "semantic_search env coll query max_results [] = ([], None)"
    using assms(2,3,4) by (auto simp: semantic_search_def)
  then show ?thesis using assms(1) by (simp add: search_knowledge_def)
qed

theorem semantic_zero_hits_returns_empty_witness:
  "collection \<lparr>db = cats_store, collection = Some ()\<rparr> = Some () \<and>
   dict_getitem [(''documents'', PList [PList []]), (''metadatas'', PList [PList []]),
                 (''distances'', PList [PList []])] ''documents'' = Inr (PList [PList []]) \<and>
   getitem_index (PList [PList []]) 0 = Inr (PList []) \<and>
   search_knowledge
     (example_env (Inr [(''documents'', PList [PList []]), (''metadatas'', PList [PList []]),
                        (''distances'', PList [PList []])]))
     \<lparr>db = cats_store, collection = Some ()\<rparr> ''cats'' 5 = Inr [] \<and>
   keyword_search cats_store ''cats'' 5 [] \<noteq> []"
  using semantic_zero_hits_returns_empty[of "\<lparr>db = cats_store, collection = Some ()\<rparr>" "()"
      "example_env (Inr [(''documents'', PList [PList []]), (''metadatas'', PList [PList []]),
                        (''distances'', PList [PList []])])" "''cats''" 5
      "[(''documents'', PList [PList []]), (''metadatas'', PList [PList []]),
                        (''distances'', PList [PList []])]" "PList [PList []]" cats_store]
  by (simp add: example_env_def dict_getitem_def cats_keyword_search)



lemma cats_search_eval:
  "search_knowledge (example_env r) \<lparr>db = cats_store, collection = None\<rparr> ''World  CATS'' 5 =
     Inr [\<lparr>r_content = PStr cats_text, r_filename = PStr ''cats.txt'', r_chunk_index = PInt 0,
           relevance_score = PFloat (1 / 2)\<rparr>]"
  "search_knowledge (example_env r) \<lparr>db = cats_store, collection = None\<rparr> ''cats world'' 5 =
     Inr []"
  "search_knowledge (example_env r) \<lparr>db = cats_store, collection = None\<rparr> ''  '' 5 =
     Inr [\<lparr>r_content = PStr cats_text, r_filename = PStr ''cats.txt'', r_chunk_index = PInt 0,
           relevance_score = PFloat (1 / 2)\<rparr>]"
  by (simp_all add: search_knowledge_def keyword_search_def select_chunks_def
        join_chunks_documents_def cats_store_def
        cats_text_def py_split_def py_lower_def py_lower_char_def isspace_def sql_lower_def
        sql_lower_char_def sql_limit_def keyword_result_def Let_def char_of_eq_iff)



lemma unique_row:
  "distinct (map f xs) \<Longrightarrow> k \<in> f ` set xs \<Longrightarrow>
   \<exists>x. filter (\<lambda>y. k = f y) xs = [x] \<and> find (\<lambda>y. f y = k) xs = Some x"
proof (induction xs)
  case Nil
  then show ?case by simp
next
  case (Cons a xs)
  show ?case
  proof (cases "f a = k")
    case True
    with Cons.prems(1) have "filter (\<lambda>y. k = f y) xs = []"
      by (auto simp: filter_empty_conv)
    with True show ?thesis by auto
  next
    case False
    with Cons show ?thesis by auto
  qed
qed

lemma join_rows:
  assumes "distinct (map doc_id (documents s))"
    and "\<forall>c\<in>set cs. document_id c \<in> doc_id ` set (documents s)"
  shows "map (\<lambda>(c, d). (content c, filename d, chunk_index c))
           (concat (map (\<lambda>c. map (Pair c) (filter (\<lambda>d. document_id c = doc_id d) (documents s))) cs)) =
         map (\<lambda>c. (content c, chunk_filename s c, chunk_index c)) cs"
    and "map (\<lambda>(c, d). chunk_id c)
           (concat (map (\<lambda>c. map (Pair c) (filter (\<lambda>d. document_id c = doc_id d) (documents s))) cs)) =
         map chunk_id cs"
  using assms(2)
proof (induction cs)
  case Nil
  { case 1 show ?case by simp }
  { case 2 show ?case by simp }
next
  case (Cons c cs)
  { case 1
    from unique_row[OF assms(1), of "document_id c"] 1
    obtain d where "filter (\<lambda>d. document_id c = doc_id d) (documents s) = [d]"
      "find (\<lambda>d. doc_id d = document_id c) (documents s) = Some d" by auto
    with Cons.IH(1) 1 show ?case by (simp add: chunk_filename_def) }
  { case 2
    from unique_row[OF assms(1), of "document_id c"] 2
    obtain d where "filter (\<lambda>d. document_id c = doc_id d) (documents s) = [d]" by auto
    with Cons.IH(2) 2 show ?case by simp }
qed

lemma sort_key_sorted: "sorted (map f xs) \<Longrightarrow> sort_key f xs = xs"
  by (rule sort_key_id_if_sorted)

text \<open>
  C10 (empty query). On the keyword path an empty or whitespace-only query gives the
  pattern \<open>%%\<close>, which every content matches; in a well-formed store the result is
  the first \<open>max_results\<close> chunks in ascending chunk id, each with score \<open>0.5\<close>.
\<close>

theorem empty_query_returns_first_chunks:
  assumes "collection self = None \<or>
           (\<exists>coll e. collection self = Some coll \<and>
                     collection_query env coll query max_results = Inl e)"
    and "\<forall>c\<in>set query. isspace c"
    and "0 \<le> max_results"
    and "store_ok (db self)"
  shows "''%'' @ py_join ''%'' (py_split (py_lower query)) @ ''%'' = ''%%'' \<and>
         (\<forall>t. like ''%%'' t) \<and>
         search_knowledge env self query max_results =
           Inr (map (\<lambda>c. keyword_result (content c, chunk_filename (db self) c, chunk_index c))
                  (take (nat max_results) (sort_key chunk_id (chunks (db self)))))"
proof -
  have k: "search_knowledge env self query max_results =
           Inr (keyword_search (db self) query max_results [])"
    using assms(1) by (auto simp: search_knowledge_def semantic_search_def)
  have w: "py_split (py_lower query) = []"
    using assms(2) by (simp add: py_lower_spaces py_split_def split_aux_spaces)
  have d: "distinct (map doc_id (documents (db self)))"
    and r: "\<forall>c\<in>set (chunks (db self)). document_id c \<in> doc_id ` set (documents (db self))"
    and so: "sorted_wrt (<) (map chunk_id (chunks (db self)))"
    using assms(4) by (simp_all add: store_ok_def)
  from so have so': "sorted (map chunk_id (chunks (db self)))"
    by (rule strict_sorted_imp_sorted)
  note j = join_rows[OF d r]
  have sj: "sort_key (\<lambda>(c, d). chunk_id c) (join_chunks_documents (db self)) =
            join_chunks_documents (db self)"
    by (rule sort_key_sorted) (simp add: join_chunks_documents_def j(2) so')
  have "select_chunks (db self) ''%%'' max_results =
          take (nat max_results)
            (map (\<lambda>c. (content c, chunk_filename (db self) c, chunk_index c)) (chunks (db self)))"
    unfolding select_chunks_def using assms(3) like_all(2)
    by (simp add: sql_limit_def sj) (simp add: join_chunks_documents_def j(1))
  then have "keyword_search (db self) query max_results [] =
      map (\<lambda>c. keyword_result (content c, chunk_filename (db self) c, chunk_index c))
                  (take (nat max_results) (sort_key chunk_id (chunks (db self))))"
    by (simp add: keyword_search_def w sort_key_sorted[OF so'] take_map)
  with k w like_all(2) show ?thesis by simp
qed

theorem empty_query_returns_first_chunks_witness:
  "collection \<lparr>db = cats_store, collection = None :: unit option\<rparr> = None \<and>
   isspace CHR '' '' \<and> (0::int) \<le> 5 \<and> store_ok cats_store \<and>
   search_knowledge (example_env (Inl LibraryError)) \<lparr>db = cats_store, collection = None\<rparr>
     ''  '' 5 =
     Inr [\<lparr>r_content = PStr cats_text, r_filename = PStr ''cats.txt'', r_chunk_index = PInt 0,
           relevance_score = PFloat (1 / 2)\<rparr>]"
proof -
  have ok: "store_ok cats_store"
    by (simp add: store_ok_def cats_store_def)
  have sp: "isspace CHR '' ''" by (simp add: isspace_def)
  from empty_query_returns_first_chunks[of "\<lparr>db = cats_store, collection = None\<rparr>"
         "example_env (Inl LibraryError)" "''  ''" 5] ok sp
  have "search_knowledge (example_env (Inl LibraryError)) \<lparr>db = cats_store, collection = None\<rparr>
     ''  '' 5 =
     Inr (map (\<lambda>c. keyword_result (content c, chunk_filename cats_store c, chunk_index c))
            (take (nat 5) (sort_key chunk_id (chunks cats_store))))"
    by simp
  then show ?thesis using ok sp cats_search_eval(3)[of "Inl LibraryError"] by simp
qed

section \<open>Reset\<close>

lemma clear_knowledge_base_db:
  "db (clear_knowledge_base env self) = (db self)\<lparr>chunks := [], documents := []\<rparr>"
  by (simp add: clear_knowledge_base_def clear_db Let_def split: option.split)

lemma clear_prefix_states:
  assumes "n \<le> length clear_statements"
  shows "committed (run_statements (take n clear_statements) (connect s)) = s \<or>
         committed (run_statements (take n clear_statements) (connect s)) =
           s\<lparr>chunks := [], documents := []\<rparr>"
proof -
  from assms have "n = 0 \<or> n = 1 \<or> n = 2 \<or> n = 3"
    by (auto simp: clear_statements_def)
  then show ?thesis
    by (auto simp: clear_statements_def run_statements_def connect_def execute_def commit_def
          delete_chunks_def delete_documents_def)
qed

lemma process_document_fresh_elsewhere:
  assumes "process_document env self0 p cb = Some (True, self1)"
    and "calculate_file_hash env p = Inr h"
    and "h \<notin> set (map file_hash (documents (db self0)))"
    and "h \<notin> set (map file_hash (documents (db self)))"
  shows "\<exists>self'. process_document env self p cb = Some (True, self')"
proof -
  have s0: "select_id_by_hash (db self0) h = None" and s: "select_id_by_hash (db self) h = None"
    using assms(3,4) by (simp_all add: select_id_by_hash_None)
  note sd0 = store_document_db[OF assms(3)] and sd = store_document_db[OF assms(4)]
  from assms(1,2) s0 s show ?thesis
    by (auto simp: process_document_def Let_def pending_connect sd0 sd
          split: if_splits option.splits sum.splits)
qed

text \<open>
  C7 (full reset). The reset runs two deletes and one commit on a single connection:
  after every prefix of these statements the committed store is either the old one or
  the fully cleared one. Afterwards the statistics report zero documents and zero chunks.
  A successful ingestion into the cleared store always inserts a fresh document row (it
  cannot take the duplicate path), and a file that was ingested as new before can be
  ingested again.
\<close>

theorem clear_knowledge_base_resets:
  "(\<forall>n\<in>{..length clear_statements}.
      committed (run_statements (take n clear_statements) (connect (db self))) = db self \<or>
      committed (run_statements (take n clear_statements) (connect (db self))) =
        db (clear_knowledge_base env self)) \<and>
   documents (db (clear_knowledge_base env self)) = [] \<and>
   chunks (db (clear_knowledge_base env self)) = [] \<and>
   total_documents (get_document_stats (clear_knowledge_base env self)) = 0 \<and>
   total_chunks (get_document_stats (clear_knowledge_base env self)) = 0 \<and>
   (\<forall>p cb self'.
      process_document env (clear_knowledge_base env self) p cb = Some (True, self') \<longrightarrow>
      (\<exists>h. calculate_file_hash env p = Inr h \<and>
           map file_hash (documents (db self')) = [h] \<and>
           map doc_id (documents (db self')) = [Suc (documents_seq (db self))])) \<and>
   (\<forall>p cb self0 self1 h.
      process_document env self0 p cb = Some (True, self1) \<and>
      calculate_file_hash env p = Inr h \<and>
      h \<notin> set (map file_hash (documents (db self0))) \<longrightarrow>
      (\<exists>self'. process_document env (clear_knowledge_base env self) p cb = Some (True, self')))"
proof (intro conjI ballI allI impI)
  fix n assume "n \<in> {..length clear_statements}"
  then show "committed (run_statements (take n clear_statements) (connect (db self))) = db self \<or>
      committed (run_statements (take n clear_statements) (connect (db self))) =
        db (clear_knowledge_base env self)"
    using clear_prefix_states[of n "db self"] by (simp add: clear_knowledge_base_db)
next
  show "documents (db (clear_knowledge_base env self)) = []"
    and "chunks (db (clear_knowledge_base env self)) = []"
    and "total_documents (get_document_stats (clear_knowledge_base env self)) = 0"
    and "total_chunks (get_document_stats (clear_knowledge_base env self)) = 0"
    by (simp_all add: clear_knowledge_base_db get_document_stats_def)
next
  fix p cb self'
  assume a: "process_document env (clear_knowledge_base env self) p cb = Some (True, self')"
  from process_document_outcome[OF a]
  show "\<exists>h. calculate_file_hash env p = Inr h \<and>
           map file_hash (documents (db self')) = [h] \<and>
           map doc_id (documents (db self')) = [Suc (documents_seq (db self))]"
    by (auto simp: clear_knowledge_base_db ingested_fields)
next
  fix p cb self0 self1 h
  assume "process_document env self0 p cb = Some (True, self1) \<and>
      calculate_file_hash env p = Inr h \<and>
      h \<notin> set (map file_hash (documents (db self0)))"
  then show "\<exists>self'. process_document env (clear_knowledge_base env self) p cb = Some (True, self')"
    using process_document_fresh_elsewhere[of env self0 p cb self1 h "clear_knowledge_base env self"]
    by (simp add: clear_knowledge_base_db)
qed

theorem clear_knowledge_base_resets_witness:
  "clear_knowledge_base (example_env (Inl LibraryError)) \<lparr>db = cats_store, collection = None\<rparr> =
     \<lparr>db = cleared_cats_store, collection = None\<rparr> \<and>
   total_documents (get_document_stats \<lparr>db = cleared_cats_store, collection = None :: unit option\<rparr>) = 0 \<and>
   total_chunks (get_document_stats \<lparr>db = cleared_cats_store, collection = None :: unit option\<rparr>) = 0 \<and>
   process_document (example_env (Inl LibraryError)) \<lparr>db = cleared_cats_store, collection = None\<rparr>
     ''cats.txt'' None = Some (True, \<lparr>db = cats_store_again, collection = None\<rparr>)"
proof -
  have c: "clear_knowledge_base (example_env (Inl LibraryError)) \<lparr>db = cats_store, collection = None\<rparr> =
     \<lparr>db = cleared_cats_store, collection = None\<rparr>"
    by (simp add: clear_knowledge_base_def clear_db cats_store_def cleared_cats_store_def)
  have p: "process_document (example_env (Inl LibraryError)) \<lparr>db = cleared_cats_store, collection = None\<rparr>
     ''cats.txt'' None = Some (True, \<lparr>db = cats_store_again, collection = None\<rparr>)"
    by (simp add: process_document_def example_env_def calculate_file_hash_def
        read_blocks.simps[of 4096 "[72, 105]"] read_blocks.simps[of 4096 "[]"] cleared_cats_store_def select_id_by_hash_def connect_def
        py_lower_def py_lower_char_def invoke_def extract_text_from_txt_def cats_text_def
        strip_def isspace_def chunk_text_def store_document_def insert_document_def
        execute_def insert_chunk_def commit_def add_embeddings_def cats_store_again_def Let_def char_of_eq_iff)
  from clear_knowledge_base_resets[of "\<lparr>db = cats_store, collection = None\<rparr>"
          "example_env (Inl LibraryError)"]
  have "total_documents (get_document_stats (clear_knowledge_base (example_env (Inl LibraryError))
           \<lparr>db = cats_store, collection = None\<rparr>)) = 0 \<and>
        total_chunks (get_document_stats (clear_knowledge_base (example_env (Inl LibraryError))
           \<lparr>db = cats_store, collection = None\<rparr>)) = 0"
    by blast
  then show ?thesis using c p by simp
qed

end
